theory Spec2Isabelle
  imports Complex_Main
begin

section \<open>LockOnTarget: the target registry and the default target handler\<close>

text \<open>
  The development has two parts. The first embeds \<^verbatim>\<open>UTargetManager\<close> from
  \<^verbatim>\<open>Private/TargetManager.cpp\<close>: the registry of target components, with
  \<^verbatim>\<open>RegisterTarget\<close> and \<^verbatim>\<open>UnregisterTarget\<close>. The second embeds the data
  declared in \<^verbatim>\<open>DefaultTargetHandler.h\<close> (\<^verbatim>\<open>FTargetModifier\<close>,
  \<^verbatim>\<open>FTargetContext\<close>, \<^verbatim>\<open>FFindTargetContext\<close>) and the selection loops that the
  header declares and the specification describes.
\<close>

subsection \<open>Pointers\<close>

text \<open>
  A C++ pointer is either the null pointer or the address of an object; objects are
  told apart by an identity of type \<open>'a\<close>.
\<close>

datatype 'a ptr = nullptr | Ptr 'a

subsection \<open>The engine's set container\<close>

text \<open>
  \<^verbatim>\<open>Targets\<close> is a \<^verbatim>\<open>TSet\<close> of component pointers (the calls
  \<^verbatim>\<open>Add(Element, bool* bIsAlreadyInSetPtr)\<close>, \<^verbatim>\<open>Remove(Element)\<close> and
  \<^verbatim>\<open>Reserve\<close> in the source are those of \<^verbatim>\<open>TSet\<close>). The container holds
  each element at most once. \<^verbatim>\<open>Add\<close> writes through its second argument whether
  the element was already in the set; \<^verbatim>\<open>Remove\<close> returns the number of elements
  it removed.
\<close>

definition TSet_Add :: "'e set \<Rightarrow> 'e \<Rightarrow> 'e set \<times> bool" where
  "TSet_Add S x = (insert x S, x \<in> S)"

definition TSet_Remove :: "'e set \<Rightarrow> 'e \<Rightarrow> 'e set \<times> int" where
  "TSet_Remove S x = (S - {x}, if x \<in> S then 1 else 0)"

subsection \<open>UTargetManager\<close>

record 'a UTargetManager =
  Targets :: "'a ptr set"

text \<open>
  \<^verbatim>\<open>
  bool UTargetManager::RegisterTarget(UTargetComponent* Target)
  {
      bool bHasAlreadyBeen = true;
      if (Target)
      {
          Targets.Add(Target, &bHasAlreadyBeen);
      }
      return !bHasAlreadyBeen;
  }
  \<close>
  The model returns the result together with the manager after the call.
\<close>

definition RegisterTarget :: "'a UTargetManager \<Rightarrow> 'a ptr \<Rightarrow> bool \<times> 'a UTargetManager" where
  "RegisterTarget M Target =
     (let bHasAlreadyBeen = True;
          (Targets', bHasAlreadyBeen) =
            (if Target \<noteq> nullptr then TSet_Add (Targets M) Target
             else (Targets M, bHasAlreadyBeen))
      in (\<not> bHasAlreadyBeen, M\<lparr>Targets := Targets'\<rparr>))"

text \<open>
  \<^verbatim>\<open>
  bool UTargetManager::UnregisterTarget(UTargetComponent* Target)
  {
      return Targets.Remove(Target) > 0;
  }
  \<close>
\<close>

definition UnregisterTarget :: "'a UTargetManager \<Rightarrow> 'a ptr \<Rightarrow> bool \<times> 'a UTargetManager" where
  "UnregisterTarget M Target =
     (let (Targets', n) = TSet_Remove (Targets M) Target
      in (n > 0, M\<lparr>Targets := Targets'\<rparr>))"

section \<open>The default target handler\<close>

subsection \<open>Data declared in DefaultTargetHandler.h\<close>

type_synonym FName = string
type_synonym FVector = "real \<times> real \<times> real"
type_synonym FVector2D = "real \<times> real"

definition NAME_None :: FName where
  "NAME_None = ''None''"

text \<open>
  \<^verbatim>\<open>FLT_MAX\<close> of \<^verbatim>\<open><cfloat>\<close>, the largest finite single-precision value,
  \<^verbatim>\<open>2^128 - 2^104\<close>. Modifiers are \<^verbatim>\<open>float\<close>s in the source; the
  model takes them as the reals they denote, which orders them as \<^verbatim>\<open><\<close> does on
  floats that are not NaN.
\<close>

definition FLT_MAX :: real where
  "FLT_MAX = 340282346638528859811704183484516925440"

text \<open>
  \<^verbatim>\<open>
  struct FTargetContext
  {
      TObjectPtr<UTargetingHelperComponent> HelperComponent = nullptr;
      FName SocketName = NAME_None;
      FVector SocketWorldLocation = FVector::ZeroVector;
      FVector2D SocketScreenPosition = FVector2D::ZeroVector;
      bool bIsScreenPositionValid = false;
  };
  \<close>
\<close>

record 'c FTargetContext =
  HelperComponent :: "'c ptr"
  SocketName :: FName
  SocketWorldLocation :: FVector
  SocketScreenPosition :: FVector2D
  bIsScreenPositionValid :: bool

definition FTargetContext_default :: "'c FTargetContext" where
  "FTargetContext_default =
     \<lparr>HelperComponent = nullptr, SocketName = NAME_None, SocketWorldLocation = (0, 0, 0),
      SocketScreenPosition = (0, 0), bIsScreenPositionValid = False\<rparr>"

text \<open>
  Modelled from the spec: \<^verbatim>\<open>FTargetInfo\<close> is only forward-declared in the header
  (\<^verbatim>\<open>struct FTargetInfo;\<close>). The spec has a selection return "the chosen (candidate,
  socket) pair or no target", an explicit optional value.
\<close>

type_synonym 'c FTargetInfo = "('c ptr \<times> FName) option"

text \<open>
  \<^verbatim>\<open>
  struct FTargetModifier
  {
      FTargetModifier() = default;
      FTargetModifier(const FTargetContext& TargetContext);
      FTargetInfo TargetInfo;
      float Modifier = FLT_MAX;
  };
  \<close>
\<close>

record 'c FTargetModifier =
  TargetInfo :: "'c FTargetInfo"
  Modifier :: real

definition FTargetModifier_default :: "'c FTargetModifier" where
  "FTargetModifier_default = \<lparr>TargetInfo = None, Modifier = FLT_MAX\<rparr>"

text \<open>
  Modelled from the spec: the body of the constructor
  \<^verbatim>\<open>FTargetModifier(const FTargetContext&)\<close> is not in the sources. The header gives
  the member its default initialiser \<^verbatim>\<open>FLT_MAX\<close>, and the spec has every modifier
  "initialized to a sentinel worst possible value"; the target is the pair of the context.
\<close>

definition FTargetModifier_of_context :: "'c FTargetContext \<Rightarrow> 'c FTargetModifier" where
  "FTargetModifier_of_context TargetContext =
     \<lparr>TargetInfo = Some (HelperComponent TargetContext, SocketName TargetContext),
      Modifier = FLT_MAX\<rparr>"

text \<open>
  \<^verbatim>\<open>
  struct FFindTargetContext
  {
      TObjectPtr<UDefaultTargetHandler> ContextOwner = nullptr;
      TObjectPtr<ULockOnTargetComponent> LockOnTargetComponent = nullptr;
      FVector2D PlayerRawInput = FVector2D(0.);
      FTargetContext CurrentTarget;
      FTargetContext IteratorTarget;
      bool bIsSwitchingTarget = false;
      void PrepareIteratorTargetContext(FName Socket);
  };
  \<close>
  \<open>'o\<close> is the identity of the handler and of the component that owns it.
\<close>

record ('c, 'o) FFindTargetContext =
  ContextOwner :: "'o ptr"
  LockOnTargetComponent :: "'o ptr"
  PlayerRawInput :: FVector2D
  CurrentTarget :: "'c FTargetContext"
  IteratorTarget :: "'c FTargetContext"
  bIsSwitchingTarget :: bool

subsection \<open>Collaborators and overridable methods\<close>

text \<open>
  What the handler reads from outside itself, taken as parameters: the sockets of a
  target and their world locations (methods of \<^verbatim>\<open>UTargetingHelperComponent\<close>), and
  the projection to the screen (\<^verbatim>\<open>VectorToScreenPosition\<close>, which returns the
  validity flag and writes the screen position through its second argument).
\<close>

record 'c Collaborators =
  GetSockets :: "'c ptr \<Rightarrow> FName list"
  GetSocketLocation :: "'c ptr \<Rightarrow> FName \<Rightarrow> FVector"
  VectorToScreenPosition :: "FVector \<Rightarrow> FVector2D \<times> bool"

text \<open>
  The handler's checks and its modifier calculation are virtual (some of them
  overridable in Blueprint), all of them \<^verbatim>\<open>const\<close>: the model takes them as
  functions, so that a property holds for every override. The modifier is a number: no
  comparison with NaN holds, so a socket for which an override returns NaN is never
  stored by the loops below, which is what they do with a socket that
  \<^verbatim>\<open>PreModifierCalculationCheck\<close> skips; such a socket stands in the model as a
  skipped one.
  \<^verbatim>\<open>
  bool IsTargetable(UTargetingHelperComponent* HelpComp) const;
  bool IsTargetableCustom(UTargetingHelperComponent* HelperComponent) const;
  virtual bool PreModifierCalculationCheck(const FFindTargetContext& TargetContext) const;
  float CalculateTargetModifier(const FFindTargetContext& TargetContext) const;
  bool PostModifierCalculationCheck(const FFindTargetContext& TargetContext) const;
  \<close>
\<close>

record ('c, 'o) UDefaultTargetHandler =
  IsTargetable :: "'c ptr \<Rightarrow> bool"
  IsTargetableCustom :: "'c ptr \<Rightarrow> bool"
  PreModifierCalculationCheck :: "('c, 'o) FFindTargetContext \<Rightarrow> bool"
  CalculateTargetModifier :: "('c, 'o) FFindTargetContext \<Rightarrow> real"
  PostModifierCalculationCheck :: "('c, 'o) FFindTargetContext \<Rightarrow> bool"

subsection \<open>The selection loops\<close>

text \<open>
  Modelled from the spec: the body of \<^verbatim>\<open>FFindTargetContext::PrepareIteratorTargetContext\<close>
  is not in the sources. The spec's evaluation context holds "a transient iterator
  (Candidate, Socket) pair under consideration"; the fields are those of
  \<^verbatim>\<open>FTargetContext\<close> in the header: the socket, its world location and its projection
  on the screen with the validity flag. The target of the iterator is set by the caller.
\<close>

definition PrepareIteratorTargetContext ::
  "'c Collaborators \<Rightarrow> FName \<Rightarrow> ('c, 'o) FFindTargetContext \<Rightarrow> ('c, 'o) FFindTargetContext" where
  "PrepareIteratorTargetContext W Socket C =
     (let Target = HelperComponent (IteratorTarget C);
          Location = GetSocketLocation W Target Socket;
          (ScreenPosition, bValid) = VectorToScreenPosition W Location
      in C\<lparr>IteratorTarget :=
             \<lparr>HelperComponent = Target, SocketName = Socket, SocketWorldLocation = Location,
              SocketScreenPosition = ScreenPosition, bIsScreenPositionValid = bValid\<rparr>\<rparr>)"

text \<open>
  Modelled from the spec: the body of \<^verbatim>\<open>UDefaultTargetHandler::FindBestSocket\<close> is
  not in the sources; the header declares
  \<^verbatim>\<open>void FindBestSocket(FTargetModifier& TargetModifier, FFindTargetContext& TargetContext)\<close>.
  The spec, section 4.3: "iterate sockets of one candidate; for each, run a pre-check hook
  (may skip a socket cheaply, e.g. to avoid recomputation for sockets behind others);
  compute a modifier [...]. If the newly computed modifier is smaller than the best-so-far
  for this candidate, run an expensive post-check hook (intended for line-of-sight
  verification) before accepting; reject the socket if the post-check fails, without
  reverting to a less-good previously accepted socket for that candidate (tie-break/edge
  case: if the post-check fails for the best candidate modifier, that candidate contributes
  no socket this evaluation)." Section 3 has the modifier "only overwritten when a strictly
  smaller value is computed".

  So a strictly smaller modifier always becomes the stored one; the socket becomes the
  stored target when it passes the post-check, and when it fails the stored target is
  cleared: a socket accepted before, which is less good, is not kept. The loop takes the
  two referenced objects and returns them as the call leaves them. The notification raised
  for each computed modifier "must not affect selection outcome" and is left out.
\<close>

fun FindBestSocket_loop ::
  "('c, 'o) UDefaultTargetHandler \<Rightarrow> 'c Collaborators \<Rightarrow> FName list \<Rightarrow>
   'c FTargetModifier \<times> ('c, 'o) FFindTargetContext \<Rightarrow>
   'c FTargetModifier \<times> ('c, 'o) FFindTargetContext" where
  "FindBestSocket_loop H W [] (TargetModifier, C) = (TargetModifier, C)"
| "FindBestSocket_loop H W (Socket # Sockets) (TargetModifier, C) =
     (let C1 = PrepareIteratorTargetContext W Socket C in
      if \<not> PreModifierCalculationCheck H C1
      then FindBestSocket_loop H W Sockets (TargetModifier, C1)
      else
        let CurrentModifier = CalculateTargetModifier H C1 in
        if CurrentModifier < Modifier TargetModifier
        then
          if PostModifierCalculationCheck H C1
          then FindBestSocket_loop H W Sockets
                 (\<lparr>TargetInfo = Some (HelperComponent (IteratorTarget C1),
                                      SocketName (IteratorTarget C1)),
                   Modifier = CurrentModifier\<rparr>, C1)
          else FindBestSocket_loop H W Sockets
                 (\<lparr>TargetInfo = None, Modifier = CurrentModifier\<rparr>, C1)
        else FindBestSocket_loop H W Sockets (TargetModifier, C1))"

definition FindBestSocket ::
  "('c, 'o) UDefaultTargetHandler \<Rightarrow> 'c Collaborators \<Rightarrow>
   'c FTargetModifier \<times> ('c, 'o) FFindTargetContext \<Rightarrow>
   'c FTargetModifier \<times> ('c, 'o) FFindTargetContext" where
  "FindBestSocket H W TC =
     FindBestSocket_loop H W (GetSockets W (HelperComponent (IteratorTarget (snd TC)))) TC"

text \<open>
  Modelled from the spec: the body of \<^verbatim>\<open>UDefaultTargetHandler::FindTargetInternal\<close>
  is not in the sources; the header declares
  \<^verbatim>\<open>FTargetInfo FindTargetInternal(FFindTargetContext& TargetContext)\<close> and its class
  comment says it "iterates over TargetingHelperComponents, prepares context", checking
  \<^verbatim>\<open>IsTargetable\<close> and \<^verbatim>\<open>IsTargetableCustom\<close> before \<^verbatim>\<open>FindBestSocket\<close>.
  The spec, section 4.3: "iterate all eligible candidates (per CandidateFilter), call
  FindBestSocket for each, keep the global minimum modifier result"; section 8: a
  candidate whose best socket fails the post-check "yields no socket; next-best eligible
  candidate is selected instead". So a candidate that contributes no socket never replaces
  the best target. \<open>AllTargets\<close> is the registry's set of targets in the order the
  iteration visits it.
\<close>

fun FindTargetInternal_loop ::
  "('c, 'o) UDefaultTargetHandler \<Rightarrow> 'c Collaborators \<Rightarrow> 'c ptr list \<Rightarrow>
   'c FTargetModifier \<times> ('c, 'o) FFindTargetContext \<Rightarrow>
   'c FTargetModifier \<times> ('c, 'o) FFindTargetContext" where
  "FindTargetInternal_loop H W [] (BestTarget, C) = (BestTarget, C)"
| "FindTargetInternal_loop H W (Target # AllTargets) (BestTarget, C) =
     (if IsTargetable H Target \<and> IsTargetableCustom H Target
      then
        let C1 = C\<lparr>IteratorTarget := (IteratorTarget C)\<lparr>HelperComponent := Target\<rparr>\<rparr>;
            (TargetModifier, C2) = FindBestSocket H W (FTargetModifier_default, C1)
        in if TargetInfo TargetModifier \<noteq> None \<and> Modifier TargetModifier < Modifier BestTarget
           then FindTargetInternal_loop H W AllTargets (TargetModifier, C2)
           else FindTargetInternal_loop H W AllTargets (BestTarget, C2)
      else FindTargetInternal_loop H W AllTargets (BestTarget, C))"

definition FindTargetInternal ::
  "('c, 'o) UDefaultTargetHandler \<Rightarrow> 'c Collaborators \<Rightarrow> 'c ptr list \<Rightarrow>
   ('c, 'o) FFindTargetContext \<Rightarrow> 'c FTargetInfo" where
  "FindTargetInternal H W AllTargets C =
     TargetInfo (fst (FindTargetInternal_loop H W AllTargets (FTargetModifier_default, C)))"

subsection \<open>Eligible pairs of one pass\<close>

text \<open>
  The context in which the pass examines the socket \<open>Socket\<close> of the target
  \<open>Target\<close>: the context of the pass with the iterator on that pair. The modifier of the
  pair is what \<^verbatim>\<open>CalculateTargetModifier\<close> computes in that context.
\<close>

definition iterator_context ::
  "'c Collaborators \<Rightarrow> ('c, 'o) FFindTargetContext \<Rightarrow> 'c ptr \<Rightarrow> FName \<Rightarrow>
   ('c, 'o) FFindTargetContext" where
  "iterator_context W C Target Socket =
     PrepareIteratorTargetContext W Socket
       (C\<lparr>IteratorTarget := (IteratorTarget C)\<lparr>HelperComponent := Target\<rparr>\<rparr>)"

definition pair_modifier ::
  "('c, 'o) UDefaultTargetHandler \<Rightarrow> 'c Collaborators \<Rightarrow> ('c, 'o) FFindTargetContext \<Rightarrow>
   'c ptr \<times> FName \<Rightarrow> real" where
  "pair_modifier H W C p = CalculateTargetModifier H (iterator_context W C (fst p) (snd p))"

text \<open>
  The sockets of a target for which a modifier is computed are those that pass the
  pre-check. The best socket of a target is the computed socket with the least modifier,
  the first one in the order of iteration when several sockets have it (the spec: "ties
  may resolve to iteration order").
\<close>

definition computed_sockets ::
  "('c, 'o) UDefaultTargetHandler \<Rightarrow> 'c Collaborators \<Rightarrow> ('c, 'o) FFindTargetContext \<Rightarrow>
   'c ptr \<Rightarrow> FName list" where
  "computed_sockets H W C Target =
     filter (\<lambda>Socket. PreModifierCalculationCheck H (iterator_context W C Target Socket))
       (GetSockets W Target)"

definition least_socket ::
  "('c, 'o) UDefaultTargetHandler \<Rightarrow> 'c Collaborators \<Rightarrow> ('c, 'o) FFindTargetContext \<Rightarrow>
   'c ptr \<Rightarrow> FName list \<Rightarrow> FName option" where
  "least_socket H W C Target Sockets =
     List.find (\<lambda>Socket. \<forall>Other \<in> set Sockets.
                  pair_modifier H W C (Target, Socket) \<le> pair_modifier H W C (Target, Other))
       Sockets"

definition best_socket ::
  "('c, 'o) UDefaultTargetHandler \<Rightarrow> 'c Collaborators \<Rightarrow> ('c, 'o) FFindTargetContext \<Rightarrow>
   'c ptr \<Rightarrow> FName option" where
  "best_socket H W C Target = least_socket H W C Target (computed_sockets H W C Target)"

text \<open>
  A (target, socket) pair is eligible in a pass when the target is one of the registry's
  and passes both target checks, and the socket is the best socket of the target and
  passes the post-check. A socket that is not the best of its target is not eligible:
  when the best socket fails the post-check, the target contributes no socket.
\<close>

definition eligible ::
  "('c, 'o) UDefaultTargetHandler \<Rightarrow> 'c Collaborators \<Rightarrow> 'c ptr list \<Rightarrow>
   ('c, 'o) FFindTargetContext \<Rightarrow> 'c ptr \<times> FName \<Rightarrow> bool" where
  "eligible H W AllTargets C p =
     (fst p \<in> set AllTargets \<and> IsTargetable H (fst p) \<and> IsTargetableCustom H (fst p)
      \<and> best_socket H W C (fst p) = Some (snd p)
      \<and> PostModifierCalculationCheck H (iterator_context W C (fst p) (snd p)))"

subsection \<open>A small world to run the handler in\<close>

text \<open>
  Three targets: target 1 with one socket at modifier \<open>3/10\<close>; target 2 with a socket
  \<open>chest\<close> at \<open>2/10\<close> and a socket \<open>head\<close> at \<open>1/10\<close> whose projection is not
  valid; every other target with one socket at \<open>4/10\<close>. The handler takes the first
  coordinate of the socket's location as the modifier and accepts a socket after the
  calculation only when its projection is valid.
\<close>

definition example_world :: "nat Collaborators" where
  "example_world =
     \<lparr>GetSockets =
        (\<lambda>t. if t = Ptr 2 then [''chest'', ''head''] else [''chest'']),
      GetSocketLocation =
        (\<lambda>t s. if t = Ptr 1 then (3 / 10, 0, 0)
               else if t = Ptr 2 then (if s = ''chest'' then (2 / 10, 0, 0) else (1 / 10, 0, 0))
               else (4 / 10, 0, 0)),
      VectorToScreenPosition = (\<lambda>(x, y, z). ((x, y), x \<noteq> 1 / 10))\<rparr>"

definition example_handler :: "(nat, nat) UDefaultTargetHandler" where
  "example_handler =
     \<lparr>IsTargetable = (\<lambda>t. t \<noteq> nullptr),
      IsTargetableCustom = (\<lambda>t. True),
      PreModifierCalculationCheck = (\<lambda>c. True),
      CalculateTargetModifier = (\<lambda>c. fst (SocketWorldLocation (IteratorTarget c))),
      PostModifierCalculationCheck = (\<lambda>c. bIsScreenPositionValid (IteratorTarget c))\<rparr>"

definition example_context :: "(nat, nat) FFindTargetContext" where
  "example_context =
     \<lparr>ContextOwner = Ptr 0, LockOnTargetComponent = Ptr 0, PlayerRawInput = (0, 0),
      CurrentTarget = FTargetContext_default, IteratorTarget = FTargetContext_default,
      bIsSwitchingTarget = False\<rparr>"

section \<open>Properties of the registry\<close>

text \<open>
  Each call, as what it returns and what it leaves in the registry: registration inserts
  a non-null pointer and nothing else, unregistration removes the pointer and nothing
  else.
\<close>

lemma RegisterTarget_eq:
  "RegisterTarget M t =
     (t \<noteq> nullptr \<and> t \<notin> Targets M,
      if t = nullptr then M else M\<lparr>Targets := insert t (Targets M)\<rparr>)"
  by (simp add: RegisterTarget_def TSet_Add_def)

lemma UnregisterTarget_eq:
  "UnregisterTarget M t = (t \<in> Targets M, M\<lparr>Targets := Targets M - {t}\<rparr>)"
  by (simp add: UnregisterTarget_def TSet_Remove_def)

lemma Targets_update_same: "(M\<lparr>Targets := S\<rparr> = M) = (S = Targets M)"
  by (cases M) auto

text \<open>
  The null pointer is never a member of a registry that was built by registrations and
  unregistrations from one without it.
\<close>

lemma RegisterTarget_keeps_null_out:
  "nullptr \<notin> Targets M \<Longrightarrow> nullptr \<notin> Targets (snd (RegisterTarget M t))"
  by (cases t) (simp_all add: RegisterTarget_def TSet_Add_def)

lemma UnregisterTarget_keeps_null_out:
  "nullptr \<notin> Targets M \<Longrightarrow> nullptr \<notin> Targets (snd (UnregisterTarget M t))"
  by (simp add: UnregisterTarget_eq)

text \<open>
  Claim C6. Registration and unregistration report whether they changed the registry and
  are idempotent. For a target component (a non-null pointer \<open>Ptr a\<close>),
  \<^verbatim>\<open>RegisterTarget\<close> returns true exactly when the component was not registered
  yet and leaves the registry with that component added and every other one as it was;
  what it returns is whether the registry changed; a second registration right after the
  first returns false and leaves the registry as it was. For any pointer \<open>t\<close>,
  \<^verbatim>\<open>UnregisterTarget\<close> returns true exactly when \<open>t\<close> was in the registry and
  leaves the registry with \<open>t\<close> removed and every other component as it was; what it
  returns is whether the registry changed; a second unregistration right after the first
  returns false and leaves the registry as it was.
\<close>

theorem RegisterTarget_UnregisterTarget_idempotent:
  "RegisterTarget M (Ptr a) = (Ptr a \<notin> Targets M, M\<lparr>Targets := insert (Ptr a) (Targets M)\<rparr>)
   \<and> fst (RegisterTarget M (Ptr a)) = (snd (RegisterTarget M (Ptr a)) \<noteq> M)
   \<and> RegisterTarget (snd (RegisterTarget M (Ptr a))) (Ptr a)
       = (False, snd (RegisterTarget M (Ptr a)))
   \<and> UnregisterTarget M t = (t \<in> Targets M, M\<lparr>Targets := Targets M - {t}\<rparr>)
   \<and> fst (UnregisterTarget M t) = (snd (UnregisterTarget M t) \<noteq> M)
   \<and> UnregisterTarget (snd (UnregisterTarget M t)) t
       = (False, snd (UnregisterTarget M t))"
  by (auto simp: RegisterTarget_eq UnregisterTarget_eq Targets_update_same)

text \<open>
  Claim C10. \<^verbatim>\<open>RegisterTarget\<close> called with the null pointer returns false and
  leaves the registry unchanged: the null pointer is not inserted.
\<close>

theorem RegisterTarget_nullptr:
  "RegisterTarget M nullptr = (False, M)"
  by (simp add: RegisterTarget_def)

text \<open>
  A run of the registry: two components are registered, the first one once more, and the
  first one is unregistered twice.
\<close>

lemma registry_run:
  "RegisterTarget \<lparr>Targets = {}\<rparr> (Ptr (1::nat)) = (True, \<lparr>Targets = {Ptr 1}\<rparr>)
   \<and> RegisterTarget \<lparr>Targets = {Ptr 1}\<rparr> (Ptr (2::nat)) = (True, \<lparr>Targets = {Ptr 2, Ptr 1}\<rparr>)
   \<and> RegisterTarget \<lparr>Targets = {Ptr 2, Ptr 1}\<rparr> (Ptr (1::nat)) = (False, \<lparr>Targets = {Ptr 2, Ptr 1}\<rparr>)
   \<and> UnregisterTarget \<lparr>Targets = {Ptr 2, Ptr 1}\<rparr> (Ptr (1::nat)) = (True, \<lparr>Targets = {Ptr 2}\<rparr>)
   \<and> UnregisterTarget \<lparr>Targets = {Ptr 2}\<rparr> (Ptr (1::nat)) = (False, \<lparr>Targets = {Ptr 2}\<rparr>)"
  by (auto simp: RegisterTarget_def UnregisterTarget_def TSet_Add_def TSet_Remove_def)

section \<open>Properties of the selection loops\<close>

subsection \<open>The stored modifier\<close>

lemma FindBestSocket_loop_le:
  "Modifier (fst (FindBestSocket_loop H W Sockets (TM, C))) \<le> Modifier TM"
proof (induction Sockets arbitrary: TM C)
  case Nil
  show ?case by simp
next
  case (Cons Socket Sockets)
  let ?C1 = "PrepareIteratorTargetContext W Socket C"
  let ?m = "CalculateTargetModifier H ?C1"
  let ?info = "if PostModifierCalculationCheck H ?C1
               then Some (HelperComponent (IteratorTarget ?C1), SocketName (IteratorTarget ?C1))
               else None"
  show ?case
  proof (cases "PreModifierCalculationCheck H ?C1 \<and> ?m < Modifier TM")
    case True
    have "Modifier (fst (FindBestSocket_loop H W Sockets (\<lparr>TargetInfo = ?info, Modifier = ?m\<rparr>, ?C1)))
            \<le> ?m"
      using Cons.IH [where TM = "\<lparr>TargetInfo = ?info, Modifier = ?m\<rparr>" and C = ?C1] by simp
    with True show ?thesis by (auto simp: Let_def split: if_splits)
  next
    case False
    with Cons.IH [where TM = TM and C = ?C1] show ?thesis by (auto simp: Let_def)
  qed
qed

lemma FindBestSocket_loop_append:
  "FindBestSocket_loop H W (Sockets @ More) TC
     = FindBestSocket_loop H W More (FindBestSocket_loop H W Sockets TC)"
  by (induction H W Sockets TC rule: FindBestSocket_loop.induct) (simp_all add: Let_def)

text \<open>
  Claim C9. An \<^verbatim>\<open>FTargetModifier\<close> is created with \<^verbatim>\<open>Modifier\<close> equal to the
  sentinel \<^verbatim>\<open>FLT_MAX\<close>, by either constructor. While the sockets of a target are
  examined, one socket either leaves the stored \<^verbatim>\<open>FTargetModifier\<close> as it is or
  overwrites its modifier with the modifier computed for that socket, which is then
  strictly smaller than the stored one; so the stored modifier after more sockets is
  less than or equal to the stored modifier after fewer.
\<close>

theorem FTargetModifier_sentinel_nonincreasing:
  "Modifier (FTargetModifier_default :: 'c FTargetModifier) = FLT_MAX
   \<and> Modifier (FTargetModifier_of_context (TargetContext :: 'c FTargetContext)) = FLT_MAX
   \<and> (fst (FindBestSocket_loop H W [Socket] (TM, C)) = TM
      \<or> (Modifier (fst (FindBestSocket_loop H W [Socket] (TM, C)))
            = CalculateTargetModifier H (PrepareIteratorTargetContext W Socket C)
         \<and> Modifier (fst (FindBestSocket_loop H W [Socket] (TM, C))) < Modifier TM))
   \<and> Modifier (fst (FindBestSocket_loop H W (Sockets @ More) (TM, C)))
       \<le> Modifier (fst (FindBestSocket_loop H W Sockets (TM, C)))"
proof -
  obtain TM' C' where step: "FindBestSocket_loop H W Sockets (TM, C) = (TM', C')"
    by (cases "FindBestSocket_loop H W Sockets (TM, C)")
  have "Modifier (fst (FindBestSocket_loop H W More (TM', C'))) \<le> Modifier TM'"
    by (rule FindBestSocket_loop_le)
  then have mono: "Modifier (fst (FindBestSocket_loop H W (Sockets @ More) (TM, C)))
       \<le> Modifier (fst (FindBestSocket_loop H W Sockets (TM, C)))"
    by (simp add: FindBestSocket_loop_append step)
  show ?thesis
    using mono
    by (simp add: FTargetModifier_default_def FTargetModifier_of_context_def Let_def)
qed

subsection \<open>The context of a pass\<close>

text \<open>
  Preparing the iterator overwrites every field of the iterator but its target, so the
  context in which a socket is examined does not depend on the sockets examined before.
\<close>

lemma Prepare_iterator:
  "PrepareIteratorTargetContext W Socket (C\<lparr>IteratorTarget := it\<rparr>)
     = iterator_context W C (HelperComponent it) Socket"
  by (simp add: PrepareIteratorTargetContext_def iterator_context_def Let_def split: prod.splits)

lemma iterator_context_iterator:
  "iterator_context W C Target Socket
     = C\<lparr>IteratorTarget := IteratorTarget (iterator_context W C Target Socket)\<rparr>"
  by (simp add: PrepareIteratorTargetContext_def iterator_context_def Let_def split: prod.splits)

lemma iterator_context_Helper:
  "HelperComponent (IteratorTarget (iterator_context W C Target Socket)) = Target"
  by (simp add: PrepareIteratorTargetContext_def iterator_context_def Let_def split: prod.splits)

lemma iterator_context_SocketName:
  "SocketName (IteratorTarget (iterator_context W C Target Socket)) = Socket"
  by (simp add: PrepareIteratorTargetContext_def iterator_context_def Let_def split: prod.splits)

text \<open>One socket: the step of the loop, with the context of the pass made explicit.\<close>

lemma FindBestSocket_loop_Cons:
  "FindBestSocket_loop H W (Socket # Sockets) (TM, C\<lparr>IteratorTarget := it\<rparr>) =
     FindBestSocket_loop H W Sockets
       (if PreModifierCalculationCheck H (iterator_context W C (HelperComponent it) Socket)
           \<and> pair_modifier H W C (HelperComponent it, Socket) < Modifier TM
        then \<lparr>TargetInfo =
                (if PostModifierCalculationCheck H (iterator_context W C (HelperComponent it) Socket)
                 then Some (HelperComponent it, Socket) else None),
              Modifier = pair_modifier H W C (HelperComponent it, Socket)\<rparr>
        else TM,
        C\<lparr>IteratorTarget := IteratorTarget (iterator_context W C (HelperComponent it) Socket)\<rparr>)"
  using iterator_context_iterator [of W C "HelperComponent it" Socket]
  by (simp add: Prepare_iterator pair_modifier_def iterator_context_Helper
      iterator_context_SocketName Let_def)

lemma FindBestSocket_loop_context:
  "\<exists>it'. snd (FindBestSocket_loop H W Sockets (TM, C\<lparr>IteratorTarget := it\<rparr>))
            = C\<lparr>IteratorTarget := it'\<rparr> \<and> HelperComponent it' = HelperComponent it"
proof (induction Sockets arbitrary: TM it)
  case Nil
  show ?case by auto
next
  case (Cons Socket Sockets)
  show ?case
    unfolding FindBestSocket_loop_Cons
    using Cons.IH [where it = "IteratorTarget (iterator_context W C (HelperComponent it) Socket)"]
    by (simp add: iterator_context_Helper)
qed

text \<open>The last socket of a list, as a step on what the sockets before it left.\<close>

lemma FindBestSocket_loop_snoc:
  "fst (FindBestSocket_loop H W (Sockets @ [Socket]) (TM, C\<lparr>IteratorTarget := it\<rparr>)) =
     (let Before = fst (FindBestSocket_loop H W Sockets (TM, C\<lparr>IteratorTarget := it\<rparr>)) in
      if PreModifierCalculationCheck H (iterator_context W C (HelperComponent it) Socket)
         \<and> pair_modifier H W C (HelperComponent it, Socket) < Modifier Before
      then \<lparr>TargetInfo =
              (if PostModifierCalculationCheck H (iterator_context W C (HelperComponent it) Socket)
               then Some (HelperComponent it, Socket) else None),
            Modifier = pair_modifier H W C (HelperComponent it, Socket)\<rparr>
      else Before)"
proof -
  obtain it' where it': "snd (FindBestSocket_loop H W Sockets (TM, C\<lparr>IteratorTarget := it\<rparr>))
      = C\<lparr>IteratorTarget := it'\<rparr>" "HelperComponent it' = HelperComponent it"
    using FindBestSocket_loop_context by blast
  obtain Before where Before:
    "FindBestSocket_loop H W Sockets (TM, C\<lparr>IteratorTarget := it\<rparr>)
       = (Before, C\<lparr>IteratorTarget := it'\<rparr>)"
    using it'(1) by (metis prod.collapse)
  have "fst (FindBestSocket_loop H W (Sockets @ [Socket]) (TM, C\<lparr>IteratorTarget := it\<rparr>))
      = fst (FindBestSocket_loop H W [Socket] (Before, C\<lparr>IteratorTarget := it'\<rparr>))"
    by (simp only: FindBestSocket_loop_append Before)
  also have "\<dots> = (if PreModifierCalculationCheck H (iterator_context W C (HelperComponent it) Socket)
         \<and> pair_modifier H W C (HelperComponent it, Socket) < Modifier Before
      then \<lparr>TargetInfo =
              (if PostModifierCalculationCheck H (iterator_context W C (HelperComponent it) Socket)
               then Some (HelperComponent it, Socket) else None),
            Modifier = pair_modifier H W C (HelperComponent it, Socket)\<rparr>
      else Before)"
    unfolding FindBestSocket_loop_Cons it'(2) by simp
  finally show ?thesis
    by (simp only: Before fst_conv Let_def)
qed

text \<open>The first least element of a list, when an element is added at the end.\<close>

lemma find_append_if:
  "List.find P (xs @ ys) = (case List.find P xs of None \<Rightarrow> List.find P ys | Some x \<Rightarrow> Some x)"
  by (induction xs) auto

lemma least_socket_snoc_less:
  assumes "\<forall>Other \<in> set Sockets.
      pair_modifier H W C (Target, Socket) < pair_modifier H W C (Target, Other)"
  shows "least_socket H W C Target (Sockets @ [Socket]) = Some Socket"
proof -
  have "List.find (\<lambda>S. \<forall>Other \<in> set (Sockets @ [Socket]).
          pair_modifier H W C (Target, S) \<le> pair_modifier H W C (Target, Other)) Sockets = None"
    using assms by (auto simp: find_None_iff)
  then show ?thesis
    using assms by (auto simp: least_socket_def find_append_if intro: less_imp_le)
qed

lemma find_stronger:
  assumes "List.find P xs = Some x" and "\<And>y. y \<in> set xs \<Longrightarrow> Q y \<Longrightarrow> P y" and "Q x"
  shows "List.find Q xs = Some x"
  using assms by (induction xs) (auto split: if_splits)

lemma least_socket_snoc_keep:
  assumes "least_socket H W C Target Sockets = Some Best"
    and "pair_modifier H W C (Target, Best) \<le> pair_modifier H W C (Target, Socket)"
  shows "least_socket H W C Target (Sockets @ [Socket]) = Some Best"
proof -
  let ?P = "\<lambda>S. \<forall>Other \<in> set Sockets.
      pair_modifier H W C (Target, S) \<le> pair_modifier H W C (Target, Other)"
  let ?Q = "\<lambda>S. \<forall>Other \<in> set (Sockets @ [Socket]).
      pair_modifier H W C (Target, S) \<le> pair_modifier H W C (Target, Other)"
  have P: "List.find ?P Sockets = Some Best"
    using assms(1) by (simp add: least_socket_def)
  then have "?P Best" by (auto simp: find_Some_iff)
  with assms(2) have "?Q Best" by auto
  have "List.find ?Q Sockets = Some Best"
  proof (rule find_stronger [OF P])
    fix y assume "y \<in> set Sockets" and "?Q y"
    then show "?P y" by simp
  next
    show "?Q Best" by fact
  qed
  then show ?thesis
    by (simp add: least_socket_def find_append_if)
qed

lemma least_socket_Some:
  assumes "least_socket H W C Target Sockets = Some Best"
  shows "Best \<in> set Sockets"
    and "\<And>Other. Other \<in> set Sockets \<Longrightarrow>
           pair_modifier H W C (Target, Best) \<le> pair_modifier H W C (Target, Other)"
  using assms by (auto simp: least_socket_def find_Some_iff)


text \<open>
  What the loop leaves for one target, started from the default modifier: nothing when no
  computed socket is below \<^verbatim>\<open>FLT_MAX\<close>; otherwise the modifier of the first least
  computed socket, with that socket as the target exactly when it passes the post-check.
\<close>

lemma FindBestSocket_loop_best:
  fixes H W C it Sockets
  defines "T \<equiv> HelperComponent it"
  defines "cs \<equiv> filter (\<lambda>S. PreModifierCalculationCheck H (iterator_context W C T S)) Sockets"
  defines "R \<equiv> fst (FindBestSocket_loop H W Sockets (FTargetModifier_default, C\<lparr>IteratorTarget := it\<rparr>))"
  shows "((\<forall>S \<in> set cs. FLT_MAX \<le> pair_modifier H W C (T, S)) \<longrightarrow> R = FTargetModifier_default)
       \<and> (\<not> (\<forall>S \<in> set cs. FLT_MAX \<le> pair_modifier H W C (T, S)) \<longrightarrow>
           (\<exists>Best. least_socket H W C T cs = Some Best
                \<and> R = \<lparr>TargetInfo =
                         (if PostModifierCalculationCheck H (iterator_context W C T Best)
                          then Some (T, Best) else None),
                       Modifier = pair_modifier H W C (T, Best)\<rparr>))"
  unfolding cs_def R_def
proof (induction Sockets rule: rev_induct)
  case Nil
  show ?case by simp
next
  case (snoc x Sockets)
  let ?pre = "\<lambda>S. PreModifierCalculationCheck H (iterator_context W C T S)"
  let ?post = "\<lambda>S. PostModifierCalculationCheck H (iterator_context W C T S)"
  let ?m = "\<lambda>S. pair_modifier H W C (T, S)"
  let ?cs = "filter ?pre Sockets"
  let ?R = "fst (FindBestSocket_loop H W Sockets (FTargetModifier_default, C\<lparr>IteratorTarget := it\<rparr>))"
  let ?R' = "fst (FindBestSocket_loop H W (Sockets @ [x]) (FTargetModifier_default, C\<lparr>IteratorTarget := it\<rparr>))"
  let ?new = "\<lparr>TargetInfo = (if ?post x then Some (T, x) else None), Modifier = ?m x\<rparr>"
  have step: "?R' = (if ?pre x \<and> ?m x < Modifier ?R then ?new else ?R)"
    unfolding T_def by (simp add: FindBestSocket_loop_snoc Let_def)
  show ?case
  proof (cases "?pre x")
    case False
    then have "filter ?pre (Sockets @ [x]) = ?cs" and "?R' = ?R"
      using step by simp_all
    with snoc.IH show ?thesis by simp
  next
    case pre: True
    then have cs': "filter ?pre (Sockets @ [x]) = ?cs @ [x]" by simp
    show ?thesis
    proof (cases "\<forall>S \<in> set ?cs. FLT_MAX \<le> ?m S")
      case True
      with snoc.IH have R: "?R = FTargetModifier_default" by blast
      show ?thesis
      proof (cases "?m x < FLT_MAX")
        case less: True
        with True have "\<forall>S \<in> set ?cs. ?m x < ?m S" by fastforce
        then have "least_socket H W C T (?cs @ [x]) = Some x"
          by (rule least_socket_snoc_less)
        moreover have "?R' = ?new"
          using step pre less R by (simp add: FTargetModifier_default_def)
        moreover have "\<not> (\<forall>S \<in> set (?cs @ [x]). FLT_MAX \<le> ?m S)"
          using less by auto
        ultimately show ?thesis unfolding cs' by blast
      next
        case False
        then have "?R' = FTargetModifier_default"
          using step R by (simp add: FTargetModifier_default_def)
        moreover have "\<forall>S \<in> set (?cs @ [x]). FLT_MAX \<le> ?m S"
          using True False by auto
        ultimately show ?thesis unfolding cs' by blast
      qed
    next
      case False
      with snoc.IH obtain Best where Best: "least_socket H W C T ?cs = Some Best"
        "?R = \<lparr>TargetInfo = (if ?post Best then Some (T, Best) else None), Modifier = ?m Best\<rparr>"
        by blast
      have notall: "\<not> (\<forall>S \<in> set (?cs @ [x]). FLT_MAX \<le> ?m S)"
        using False by auto
      show ?thesis
      proof (cases "?m x < ?m Best")
        case less: True
        have "\<forall>S \<in> set ?cs. ?m x < ?m S"
          using least_socket_Some(2) [OF Best(1)] less by fastforce
        then have "least_socket H W C T (?cs @ [x]) = Some x"
          by (rule least_socket_snoc_less)
        moreover have "?R' = ?new"
          using step pre less Best(2) by simp
        ultimately show ?thesis using notall unfolding cs' by blast
      next
        case False
        then have "?m Best \<le> ?m x" by simp
        with Best(1) have "least_socket H W C T (?cs @ [x]) = Some Best"
          by (rule least_socket_snoc_keep)
        moreover have "?R' = ?R"
          using step False Best(2) by simp
        ultimately show ?thesis using notall Best(2) unfolding cs' by metis
      qed
    qed
  qed
qed


text \<open>One target: what \<^verbatim>\<open>FindBestSocket\<close> leaves for it.\<close>

lemma FindBestSocket_loop_target_Some:
  assumes "TargetInfo (fst (FindBestSocket_loop H W (GetSockets W Target)
      (FTargetModifier_default, C\<lparr>IteratorTarget := it\<lparr>HelperComponent := Target\<rparr>\<rparr>))) = Some p"
  shows "fst p = Target \<and> best_socket H W C Target = Some (snd p)
     \<and> PostModifierCalculationCheck H (iterator_context W C Target (snd p))
     \<and> fst (FindBestSocket_loop H W (GetSockets W Target)
          (FTargetModifier_default, C\<lparr>IteratorTarget := it\<lparr>HelperComponent := Target\<rparr>\<rparr>))
        = \<lparr>TargetInfo = Some p, Modifier = pair_modifier H W C p\<rparr>"
proof -
  let ?R = "fst (FindBestSocket_loop H W (GetSockets W Target)
      (FTargetModifier_default, C\<lparr>IteratorTarget := it\<lparr>HelperComponent := Target\<rparr>\<rparr>))"
  note best = FindBestSocket_loop_best [where H = H and W = W and C = C
      and it = "it\<lparr>HelperComponent := Target\<rparr>" and Sockets = "GetSockets W Target"]
  have "?R \<noteq> FTargetModifier_default"
    using assms by (auto simp: FTargetModifier_default_def)
  with best obtain Best where Best: "best_socket H W C Target = Some Best"
    "?R = \<lparr>TargetInfo =
             (if PostModifierCalculationCheck H (iterator_context W C Target Best)
              then Some (Target, Best) else None),
           Modifier = pair_modifier H W C (Target, Best)\<rparr>"
    by (auto simp: best_socket_def computed_sockets_def)
  from Best(2) assms have "PostModifierCalculationCheck H (iterator_context W C Target Best)"
    and "p = (Target, Best)"
    by (auto split: if_splits)
  with Best show ?thesis by simp
qed

lemma FindBestSocket_loop_target_best:
  assumes "best_socket H W C Target = Some Socket"
    and "PostModifierCalculationCheck H (iterator_context W C Target Socket)"
  shows "fst (FindBestSocket_loop H W (GetSockets W Target)
          (FTargetModifier_default, C\<lparr>IteratorTarget := it\<lparr>HelperComponent := Target\<rparr>\<rparr>))
        = \<lparr>TargetInfo = Some (Target, Socket), Modifier = pair_modifier H W C (Target, Socket)\<rparr>
     \<or> FLT_MAX \<le> pair_modifier H W C (Target, Socket)"
proof -
  note best = FindBestSocket_loop_best [where H = H and W = W and C = C
      and it = "it\<lparr>HelperComponent := Target\<rparr>" and Sockets = "GetSockets W Target"]
  have mem: "Socket \<in> set (computed_sockets H W C Target)"
    using assms(1) least_socket_Some(1) by (simp add: best_socket_def)
  show ?thesis
  proof (cases "\<forall>S \<in> set (computed_sockets H W C Target).
      FLT_MAX \<le> pair_modifier H W C (Target, S)")
    case True
    with mem show ?thesis by blast
  next
    case False
    with best assms show ?thesis
      by (auto simp: best_socket_def computed_sockets_def)
  qed
qed

text \<open>One target: the step of the outer loop.\<close>

lemma FindTargetInternal_loop_Cons:
  "FindTargetInternal_loop H W (Target # AllTargets) (Best, C\<lparr>IteratorTarget := it\<rparr>) =
     (if IsTargetable H Target \<and> IsTargetableCustom H Target
      then FindTargetInternal_loop H W AllTargets
        (if TargetInfo (fst (FindBestSocket_loop H W (GetSockets W Target)
               (FTargetModifier_default, C\<lparr>IteratorTarget := it\<lparr>HelperComponent := Target\<rparr>\<rparr>)))
              \<noteq> None
            \<and> Modifier (fst (FindBestSocket_loop H W (GetSockets W Target)
               (FTargetModifier_default, C\<lparr>IteratorTarget := it\<lparr>HelperComponent := Target\<rparr>\<rparr>)))
              < Modifier Best
         then fst (FindBestSocket_loop H W (GetSockets W Target)
               (FTargetModifier_default, C\<lparr>IteratorTarget := it\<lparr>HelperComponent := Target\<rparr>\<rparr>))
         else Best,
         snd (FindBestSocket_loop H W (GetSockets W Target)
               (FTargetModifier_default, C\<lparr>IteratorTarget := it\<lparr>HelperComponent := Target\<rparr>\<rparr>)))
      else FindTargetInternal_loop H W AllTargets (Best, C\<lparr>IteratorTarget := it\<rparr>))"
  by (simp add: FindBestSocket_def Let_def split: prod.splits)

lemma eligible_Cons:
  "eligible H W (Target # AllTargets) C p =
     (eligible H W AllTargets C p
      \<or> (fst p = Target \<and> IsTargetable H Target \<and> IsTargetableCustom H Target
         \<and> best_socket H W C Target = Some (snd p)
         \<and> PostModifierCalculationCheck H (iterator_context W C Target (snd p))))"
  by (auto simp: eligible_def)

lemma FindTargetInternal_loop_le:
  "Modifier (fst (FindTargetInternal_loop H W AllTargets (Best, C\<lparr>IteratorTarget := it\<rparr>)))
     \<le> Modifier Best"
proof (induction AllTargets arbitrary: Best it)
  case Nil
  show ?case by simp
next
  case (Cons Target AllTargets)
  let ?r = "FindBestSocket_loop H W (GetSockets W Target)
              (FTargetModifier_default, C\<lparr>IteratorTarget := it\<lparr>HelperComponent := Target\<rparr>\<rparr>)"
  obtain it' where it': "snd ?r = C\<lparr>IteratorTarget := it'\<rparr>"
    using FindBestSocket_loop_context by blast
  show ?case
    unfolding FindTargetInternal_loop_Cons it'
    using Cons.IH [where Best = Best and it = it'] Cons.IH [where Best = "fst ?r" and it = it']
      Cons.IH [where Best = Best and it = it]
    by (auto split: if_splits)
qed

lemma FindTargetInternal_loop_lower_bound:
  assumes "eligible H W AllTargets C p" and "Modifier Best \<le> FLT_MAX"
  shows "Modifier (fst (FindTargetInternal_loop H W AllTargets (Best, C\<lparr>IteratorTarget := it\<rparr>)))
           \<le> pair_modifier H W C p"
  using assms
proof (induction AllTargets arbitrary: Best it)
  case Nil
  then show ?case by (simp add: eligible_def)
next
  case (Cons Target AllTargets)
  let ?r = "FindBestSocket_loop H W (GetSockets W Target)
              (FTargetModifier_default, C\<lparr>IteratorTarget := it\<lparr>HelperComponent := Target\<rparr>\<rparr>)"
  let ?B = "if TargetInfo (fst ?r) \<noteq> None \<and> Modifier (fst ?r) < Modifier Best then fst ?r else Best"
  obtain it' where it': "snd ?r = C\<lparr>IteratorTarget := it'\<rparr>"
    using FindBestSocket_loop_context by blast
  have Ble: "Modifier ?B \<le> Modifier Best" by simp
  then have Bmax: "Modifier ?B \<le> FLT_MAX" using Cons.prems(2) by linarith
  show ?case
  proof (cases "eligible H W AllTargets C p")
    case True
    show ?thesis
      unfolding FindTargetInternal_loop_Cons it'
      using Cons.IH [OF True Bmax] Cons.IH [OF True Cons.prems(2)] by simp
  next
    case False
    with Cons.prems(1) have here: "fst p = Target" "IsTargetable H Target"
      "IsTargetableCustom H Target" "best_socket H W C Target = Some (snd p)"
      "PostModifierCalculationCheck H (iterator_context W C Target (snd p))"
      by (auto simp: eligible_Cons)
    have p: "p = (Target, snd p)" using here(1) by (cases p) simp
    from FindBestSocket_loop_target_best [OF here(4,5), where it = it]
    have "fst ?r = \<lparr>TargetInfo = Some p, Modifier = pair_modifier H W C p\<rparr>
       \<or> FLT_MAX \<le> pair_modifier H W C p"
      using p by simp
    then have "Modifier ?B \<le> pair_modifier H W C p"
    proof
      assume "fst ?r = \<lparr>TargetInfo = Some p, Modifier = pair_modifier H W C p\<rparr>"
      then show ?thesis by simp
    next
      assume "FLT_MAX \<le> pair_modifier H W C p"
      with Bmax show ?thesis by linarith
    qed
    moreover have "Modifier (fst (FindTargetInternal_loop H W AllTargets (?B, C\<lparr>IteratorTarget := it'\<rparr>)))
        \<le> Modifier ?B"
      by (rule FindTargetInternal_loop_le)
    ultimately show ?thesis
      unfolding FindTargetInternal_loop_Cons it'
      using here(2,3) by simp
  qed
qed

lemma FindTargetInternal_loop_result:
  assumes "Modifier Best \<le> FLT_MAX"
  shows "fst (FindTargetInternal_loop H W AllTargets (Best, C\<lparr>IteratorTarget := it\<rparr>)) = Best
   \<or> (\<exists>p. eligible H W AllTargets C p
         \<and> fst (FindTargetInternal_loop H W AllTargets (Best, C\<lparr>IteratorTarget := it\<rparr>))
             = \<lparr>TargetInfo = Some p, Modifier = pair_modifier H W C p\<rparr>
         \<and> pair_modifier H W C p < Modifier Best)"
  using assms
proof (induction AllTargets arbitrary: Best it)
  case Nil
  show ?case by simp
next
  case (Cons Target AllTargets)
  let ?r = "FindBestSocket_loop H W (GetSockets W Target)
              (FTargetModifier_default, C\<lparr>IteratorTarget := it\<lparr>HelperComponent := Target\<rparr>\<rparr>)"
  let ?B = "if TargetInfo (fst ?r) \<noteq> None \<and> Modifier (fst ?r) < Modifier Best then fst ?r else Best"
  let ?R = "fst (FindTargetInternal_loop H W (Target # AllTargets) (Best, C\<lparr>IteratorTarget := it\<rparr>))"
  obtain it' where it': "snd ?r = C\<lparr>IteratorTarget := it'\<rparr>"
    using FindBestSocket_loop_context by blast
  show ?case
  proof (cases "IsTargetable H Target \<and> IsTargetableCustom H Target")
    case False
    show ?thesis
      unfolding FindTargetInternal_loop_Cons
      using False Cons.IH [OF Cons.prems, where it = it]
      by (auto simp: eligible_Cons)
  next
    case True
    have B: "?B = Best \<or> (\<exists>p. eligible H W (Target # AllTargets) C p
               \<and> ?B = \<lparr>TargetInfo = Some p, Modifier = pair_modifier H W C p\<rparr>
               \<and> pair_modifier H W C p < Modifier Best)"
    proof (cases "TargetInfo (fst ?r) \<noteq> None \<and> Modifier (fst ?r) < Modifier Best")
      case False
      then show ?thesis by auto
    next
      case better: True
      then obtain p where "TargetInfo (fst ?r) = Some p" by auto
      from FindBestSocket_loop_target_Some [OF this]
      have p: "fst p = Target" "best_socket H W C Target = Some (snd p)"
        "PostModifierCalculationCheck H (iterator_context W C Target (snd p))"
        "fst ?r = \<lparr>TargetInfo = Some p, Modifier = pair_modifier H W C p\<rparr>"
        by simp_all
      have "eligible H W (Target # AllTargets) C p"
        using p(1,2,3) True by (simp add: eligible_Cons)
      moreover have "pair_modifier H W C p < Modifier Best"
        using better p(4) by simp
      moreover have "?B = \<lparr>TargetInfo = Some p, Modifier = pair_modifier H W C p\<rparr>"
        using better p(4) by simp
      ultimately show ?thesis by blast
    qed
    have Ble: "Modifier ?B \<le> Modifier Best" by simp
    then have Bmax: "Modifier ?B \<le> FLT_MAX" using Cons.prems by linarith
    have R: "?R = fst (FindTargetInternal_loop H W AllTargets (?B, C\<lparr>IteratorTarget := it'\<rparr>))"
      unfolding FindTargetInternal_loop_Cons it' using True by simp
    from Cons.IH [OF Bmax, where it = it']
    show ?thesis
    proof
      assume "fst (FindTargetInternal_loop H W AllTargets (?B, C\<lparr>IteratorTarget := it'\<rparr>)) = ?B"
      with R have "?R = ?B" by simp
      with B show ?thesis by metis
    next
      assume "\<exists>p. eligible H W AllTargets C p
         \<and> fst (FindTargetInternal_loop H W AllTargets (?B, C\<lparr>IteratorTarget := it'\<rparr>))
             = \<lparr>TargetInfo = Some p, Modifier = pair_modifier H W C p\<rparr>
         \<and> pair_modifier H W C p < Modifier ?B"
      then obtain p where p: "eligible H W AllTargets C p"
        "?R = \<lparr>TargetInfo = Some p, Modifier = pair_modifier H W C p\<rparr>"
        "pair_modifier H W C p < Modifier ?B"
        using R by auto
      have "eligible H W (Target # AllTargets) C p" using p(1) by (simp add: eligible_Cons)
      moreover have "pair_modifier H W C p < Modifier Best" using p(3) Ble by linarith
      ultimately show ?thesis using p(2) by blast
    qed
  qed
qed

subsection \<open>The selected target has the least modifier\<close>

text \<open>
  Claim C1. In every pass of the handler (finding or switching: the flag and the current
  target are fields of the context \<open>C\<close>, and the checks and the modifier calculation
  are arbitrary), a target that is returned is an eligible (target, socket) pair of that
  pass whose modifier is less than or equal to the modifier of every eligible pair of
  the pass; and when no pair is eligible, no target is returned. The eligible pair of a
  target is its best socket, when that socket passes the post-check.
\<close>

theorem FindTargetInternal_global_minimum:
  "(FindTargetInternal H W AllTargets C = Some p \<longrightarrow>
      eligible H W AllTargets C p
      \<and> (\<forall>q. eligible H W AllTargets C q \<longrightarrow> pair_modifier H W C p \<le> pair_modifier H W C q))
   \<and> ((\<forall>q. \<not> eligible H W AllTargets C q) \<longrightarrow> FindTargetInternal H W AllTargets C = None)"
proof -
  let ?R = "fst (FindTargetInternal_loop H W AllTargets
                   (FTargetModifier_default, C\<lparr>IteratorTarget := IteratorTarget C\<rparr>))"
  have info: "FindTargetInternal H W AllTargets C = TargetInfo ?R"
    by (simp add: FindTargetInternal_def)
  have max: "Modifier (FTargetModifier_default :: 'a FTargetModifier) \<le> FLT_MAX"
    by (simp add: FTargetModifier_default_def)
  have res: "?R = FTargetModifier_default
     \<or> (\<exists>q. eligible H W AllTargets C q
           \<and> ?R = \<lparr>TargetInfo = Some q, Modifier = pair_modifier H W C q\<rparr>)"
    using FindTargetInternal_loop_result [OF max, where H = H and W = W and C = C
        and AllTargets = AllTargets and it = "IteratorTarget C"]
    by blast
  have low: "\<And>q. eligible H W AllTargets C q \<Longrightarrow> Modifier ?R \<le> pair_modifier H W C q"
    by (rule FindTargetInternal_loop_lower_bound [OF _ max])
  have none: "TargetInfo (FTargetModifier_default :: 'a FTargetModifier) = None"
    by (simp add: FTargetModifier_default_def)
  show ?thesis
  proof (intro conjI impI allI)
    assume some: "FindTargetInternal H W AllTargets C = Some p"
    with info none res obtain q where q: "eligible H W AllTargets C q"
      "?R = \<lparr>TargetInfo = Some q, Modifier = pair_modifier H W C q\<rparr>"
      by auto
    with some info have "q = p" by simp
    with q show "eligible H W AllTargets C p" by simp
  next
    fix q
    assume some: "FindTargetInternal H W AllTargets C = Some p"
      and el: "eligible H W AllTargets C q"
    with info none res obtain q' where q': "eligible H W AllTargets C q'"
      "?R = \<lparr>TargetInfo = Some q', Modifier = pair_modifier H W C q'\<rparr>"
      by auto
    with some info have "q' = p" by simp
    with q'(2) have "Modifier ?R = pair_modifier H W C p" by simp
    with low [OF el] show "pair_modifier H W C p \<le> pair_modifier H W C q" by simp
  next
    assume "\<forall>q. \<not> eligible H W AllTargets C q"
    with res have "?R = FTargetModifier_default" by blast
    with info none show "FindTargetInternal H W AllTargets C = None" by simp
  qed
qed

text \<open>
  The theorem at the example: target 1 is returned on its socket \<open>chest\<close>, whose
  modifier \<open>3/10\<close> is below the \<open>4/10\<close> of target 3; with no target in the registry
  nothing is eligible and nothing is returned.
\<close>

theorem FindTargetInternal_global_minimum_witness:
  "FindTargetInternal example_handler example_world [Ptr 1, Ptr 2, Ptr 3] example_context
     = Some (Ptr 1, ''chest'')
   \<and> eligible example_handler example_world [Ptr 1, Ptr 2, Ptr 3] example_context (Ptr 1, ''chest'')
   \<and> eligible example_handler example_world [Ptr 1, Ptr 2, Ptr 3] example_context (Ptr 3, ''chest'')
   \<and> pair_modifier example_handler example_world example_context (Ptr 1, ''chest'')
       \<le> pair_modifier example_handler example_world example_context (Ptr 3, ''chest'')
   \<and> FindTargetInternal example_handler example_world [] example_context = None"
proof -
  have found: "FindTargetInternal example_handler example_world [Ptr 1, Ptr 2, Ptr 3] example_context
      = Some (Ptr 1, ''chest'')"
    by (simp add: FindTargetInternal_def FindBestSocket_def PrepareIteratorTargetContext_def
        example_handler_def example_world_def example_context_def FTargetModifier_default_def
        FTargetContext_default_def FLT_MAX_def Let_def)
  have other: "eligible example_handler example_world [Ptr 1, Ptr 2, Ptr 3] example_context
      (Ptr 3, ''chest'')"
    by (simp add: eligible_def best_socket_def least_socket_def computed_sockets_def
        pair_modifier_def iterator_context_def PrepareIteratorTargetContext_def
        example_handler_def example_world_def example_context_def)
  have nobody: "\<forall>q. \<not> eligible example_handler example_world [] example_context q"
    by (simp add: eligible_def)
  from FindTargetInternal_global_minimum
    [of example_handler example_world "[Ptr 1, Ptr 2, Ptr 3]" example_context "(Ptr 1, ''chest'')"]
    found
  have "eligible example_handler example_world [Ptr 1, Ptr 2, Ptr 3] example_context (Ptr 1, ''chest'')"
    and "\<forall>q. eligible example_handler example_world [Ptr 1, Ptr 2, Ptr 3] example_context q \<longrightarrow>
           pair_modifier example_handler example_world example_context (Ptr 1, ''chest'')
             \<le> pair_modifier example_handler example_world example_context q"
    by blast+
  moreover from FindTargetInternal_global_minimum
    [of example_handler example_world "[]" example_context] nobody
  have "FindTargetInternal example_handler example_world [] example_context = None"
    by blast
  ultimately show ?thesis using found other by blast
qed

text \<open>
  The pass does return a target whenever some eligible pair has a modifier below the
  sentinel \<^verbatim>\<open>FLT_MAX\<close>.
\<close>

lemma FindTargetInternal_returns:
  assumes "eligible H W AllTargets C q" and "pair_modifier H W C q < FLT_MAX"
  shows "\<exists>p. FindTargetInternal H W AllTargets C = Some p"
proof -
  let ?R = "fst (FindTargetInternal_loop H W AllTargets
                   (FTargetModifier_default, C\<lparr>IteratorTarget := IteratorTarget C\<rparr>))"
  have max: "Modifier (FTargetModifier_default :: 'a FTargetModifier) \<le> FLT_MAX"
    by (simp add: FTargetModifier_default_def)
  have "Modifier ?R \<le> pair_modifier H W C q"
    by (rule FindTargetInternal_loop_lower_bound [OF assms(1) max])
  with assms(2) have "?R \<noteq> FTargetModifier_default"
    by (auto simp: FTargetModifier_default_def)
  with FindTargetInternal_loop_result [OF max, where H = H and W = W and C = C
        and AllTargets = AllTargets and it = "IteratorTarget C"]
  obtain p where "?R = \<lparr>TargetInfo = Some p, Modifier = pair_modifier H W C p\<rparr>"
    by blast
  then show ?thesis
    by (simp add: FindTargetInternal_def)
qed

text \<open>
  Target 2 of the example contributes no socket: its best socket \<open>head\<close> fails the
  post-check, and the socket \<open>chest\<close>, accepted before it, is not kept. Neither of its
  pairs is eligible, and a pass over target 2 alone returns nothing.
\<close>

lemma example_no_fallback:
  "fst (FindBestSocket example_handler example_world
          (FTargetModifier_default,
           example_context\<lparr>IteratorTarget := FTargetContext_default\<lparr>HelperComponent := Ptr 2\<rparr>\<rparr>))
     = \<lparr>TargetInfo = None, Modifier = 1 / 10\<rparr>
   \<and> best_socket example_handler example_world example_context (Ptr 2) = Some ''head''
   \<and> \<not> eligible example_handler example_world [Ptr 1, Ptr 2, Ptr 3] example_context (Ptr 2, ''chest'')
   \<and> \<not> eligible example_handler example_world [Ptr 1, Ptr 2, Ptr 3] example_context (Ptr 2, ''head'')
   \<and> FindTargetInternal example_handler example_world [Ptr 2] example_context = None"
  by (simp add: FindTargetInternal_def FindBestSocket_def eligible_def best_socket_def
      least_socket_def computed_sockets_def pair_modifier_def iterator_context_def
      PrepareIteratorTargetContext_def example_handler_def example_world_def
      example_context_def FTargetModifier_default_def FTargetContext_default_def FLT_MAX_def
      Let_def)

end
